theory Spec2Isabelle
  imports Main "HOL-Library.Word"
begin

section \<open>Python values and errors used by server.py\<close>

text \<open>
  The module \<^verbatim>\<open>src/azure_sql_mcp/server.py\<close> is embedded function by function.
  A Python \<^verbatim>\<open>str\<close> is a \<^typ>\<open>string\<close> whose characters stand for the code points
  0..255, so that \<^verbatim>\<open>len\<close> is \<^const>\<open>length\<close>. Every exception the code can raise is a
  constructor of \<open>error\<close>, and a function that may raise returns \<open>error + 'a\<close>.
\<close>

type_synonym byte = "8 word"

datatype error =
    KeyError string
  | ValueError string
  | TypeError
  | IndexError
  | FileNotFoundError
  | CalledProcessError int
  | UnicodeEncodeError
  | StructError
  | DriverError string
  | WorkError string

text \<open>
  A cell of a fetched row. \<open>VNone\<close> is Python's \<^verbatim>\<open>None\<close> (SQL NULL); \<open>VOther s\<close> is
  a value of a class whose \<^verbatim>\<open>__str__\<close> lives outside this repository (Decimal, datetime,
  float, bytes), carried with the text \<^verbatim>\<open>str\<close> gives for it.
\<close>

datatype sql_value = VNone | VInt int | VStr string | VBool bool | VOther string

subsection \<open>Decimal text of an integer: \<^verbatim>\<open>str(n)\<close>\<close>

definition digit_char :: "nat \<Rightarrow> char" where
  "digit_char d = ''0123456789'' ! d"

function str_nat :: "nat \<Rightarrow> string" where
  "str_nat n = (if n < 10 then [digit_char n] else str_nat (n div 10) @ [digit_char (n mod 10)])"
  by pat_completeness auto
termination
  by (relation "measure id") auto

declare str_nat.simps [simp del]

definition str_int :: "int \<Rightarrow> string" where
  "str_int i = (if i < 0 then CHR ''-'' # str_nat (nat (- i)) else str_nat (nat i))"

fun py_str :: "sql_value \<Rightarrow> string" where
  "py_str VNone = ''None''"
| "py_str (VInt i) = str_int i"
| "py_str (VStr s) = s"
| "py_str (VBool b) = (if b then ''True'' else ''False'')"
| "py_str (VOther s) = s"

subsection \<open>String methods: \<^verbatim>\<open>ljust\<close>, \<^verbatim>\<open>join\<close>, \<^verbatim>\<open>lower\<close>, \<^verbatim>\<open>strip\<close>, \<^verbatim>\<open>replace\<close>, \<^verbatim>\<open>split\<close>\<close>

definition ljust :: "string \<Rightarrow> nat \<Rightarrow> string" where
  "ljust s w = s @ replicate (w - length s) CHR '' ''"

fun join :: "string \<Rightarrow> string list \<Rightarrow> string" where
  "join sep [] = []"
| "join sep [x] = x"
| "join sep (x # y # ys) = x @ sep @ join sep (y # ys)"

definition lower_char :: "char \<Rightarrow> char" where
  "lower_char c =
     (let n = (of_char c :: nat) in
      if (65 \<le> n \<and> n \<le> 90) \<or> (192 \<le> n \<and> n \<le> 222 \<and> n \<noteq> 215) then char_of (n + 32) else c)"

definition lower :: "string \<Rightarrow> string" where
  "lower s = map lower_char s"

definition isspace :: "char \<Rightarrow> bool" where
  "isspace c =
     (let n = (of_char c :: nat) in
      (9 \<le> n \<and> n \<le> 13) \<or> (28 \<le> n \<and> n \<le> 32) \<or> n = 133 \<or> n = 160)"

definition strip :: "string \<Rightarrow> string" where
  "strip s = rev (dropWhile isspace (rev (dropWhile isspace s)))"

text \<open>
  \<^verbatim>\<open>s.replace(old, new)\<close>: every non-overlapping occurrence of \<open>old\<close>, found from the
  left. With an empty \<open>old\<close> Python puts \<open>new\<close> before every character and at the end.
\<close>

function replace :: "string \<Rightarrow> string \<Rightarrow> string \<Rightarrow> string" where
  "replace old new s =
     (if old = [] then new @ concat (map (\<lambda>c. c # new) s)
      else if s = [] then []
      else if take (length old) s = old then new @ replace old new (drop (length old) s)
      else hd s # replace old new (tl s))"
  by pat_completeness auto
termination
  by (relation "measure (\<lambda>(old, new, s). length s)") auto

declare replace.simps [simp del]

text \<open>\<^verbatim>\<open>s.split(sep, 1)\<close> for a separator of one character.\<close>

definition split1 :: "char \<Rightarrow> string \<Rightarrow> string list" where
  "split1 sep s =
     (if sep \<in> set s then [takeWhile (\<lambda>c. c \<noteq> sep) s, tl (dropWhile (\<lambda>c. c \<noteq> sep) s)]
      else [s])"

section \<open>The result renderer: \<^verbatim>\<open>_rows_to_text\<close>\<close>

text \<open>
  A cursor after \<^verbatim>\<open>execute\<close>: \<open>description\<close> is the list of column names
  (\<^verbatim>\<open>desc[0]\<close> of each entry) or \<^verbatim>\<open>None\<close> for a statement that returns no rows,
  \<open>fetched\<close> is what \<^verbatim>\<open>fetchall()\<close> returns, \<open>rowcount\<close> is the driver's count.
\<close>

record cursor =
  description :: "string list option"
  fetched :: "sql_value list list"
  rowcount :: int

text \<open>\<^verbatim>\<open>row[i]\<close> and \<^verbatim>\<open>col_widths[i]\<close>: an index out of range raises IndexError.\<close>

definition index :: "'a list \<Rightarrow> nat \<Rightarrow> error + 'a" where
  "index xs i = (if i < length xs then Inr (xs ! i) else Inl IndexError)"

text \<open>Running a list of fallible steps in order, stopping at the first error.\<close>

fun sequence :: "(error + 'a) list \<Rightarrow> error + 'a list" where
  "sequence [] = Inr []"
| "sequence (x # xs) =
     (case x of Inl e \<Rightarrow> Inl e
      | Inr v \<Rightarrow> (case sequence xs of Inl e \<Rightarrow> Inl e | Inr vs \<Rightarrow> Inr (v # vs)))"

text \<open>
  \<^verbatim>\<open>max(len(col), max((len(str(row[i])) for row in rows), default=0))\<close> for column \<open>i\<close>.
\<close>

definition max_list :: "nat list \<Rightarrow> nat" where
  "max_list ns = fold max ns 0"

definition col_width :: "sql_value list list \<Rightarrow> nat \<Rightarrow> string \<Rightarrow> error + nat" where
  "col_width rows i col =
     (case sequence (map (\<lambda>row. index row i) rows) of
        Inl e \<Rightarrow> Inl e
      | Inr vs \<Rightarrow> Inr (max (length col) (max_list (map (\<lambda>v. length (py_str v)) vs))))"

definition col_widths :: "string list \<Rightarrow> sql_value list list \<Rightarrow> error + nat list" where
  "col_widths columns rows =
     sequence (map (\<lambda>(i, col). col_width rows i col) (enumerate 0 columns))"

definition sep_line :: "nat list \<Rightarrow> string" where
  "sep_line ws = ''+-'' @ join ''-+-'' (map (\<lambda>w. replicate w CHR ''-'') ws) @ ''-+''"

definition header_cells :: "string list \<Rightarrow> nat list \<Rightarrow> error + string list" where
  "header_cells columns ws =
     sequence (map (\<lambda>(i, col). case index ws i of Inl e \<Rightarrow> Inl e | Inr w \<Rightarrow> Inr (ljust col w))
                   (enumerate 0 columns))"

text \<open>
  One cell of a data line:
  \<^verbatim>\<open>str(v).ljust(col_widths[i]) if v is not None else "NULL".ljust(col_widths[i])\<close>.
\<close>

definition render_cell :: "sql_value \<Rightarrow> nat \<Rightarrow> string" where
  "render_cell v w = (if v \<noteq> VNone then ljust (py_str v) w else ljust ''NULL'' w)"

definition row_cells :: "sql_value list \<Rightarrow> nat list \<Rightarrow> error + string list" where
  "row_cells row ws =
     sequence (map (\<lambda>(i, v). case index ws i of Inl e \<Rightarrow> Inl e | Inr w \<Rightarrow> Inr (render_cell v w))
                   (enumerate 0 row))"

definition framed :: "string list \<Rightarrow> string" where
  "framed cells = ''| '' @ join '' | '' cells @ '' |''"

definition summary_line :: "nat \<Rightarrow> string" where
  "summary_line n = ''('' @ str_nat n @ '' row'' @ (if n \<noteq> 1 then ''s'' else '''') @ '')''"

text \<open>The list \<^verbatim>\<open>lines\<close> that \<^verbatim>\<open>_rows_to_text\<close> builds for a non-empty \<open>rows\<close>.\<close>

definition table_lines :: "string list \<Rightarrow> sql_value list list \<Rightarrow> error + string list" where
  "table_lines columns rows =
     (case col_widths columns rows of
        Inl e \<Rightarrow> Inl e
      | Inr ws \<Rightarrow>
          (case header_cells columns ws of
             Inl e \<Rightarrow> Inl e
           | Inr hs \<Rightarrow>
               (case sequence (map (\<lambda>row. row_cells row ws) rows) of
                  Inl e \<Rightarrow> Inl e
                | Inr cs \<Rightarrow>
                    Inr ([sep_line ws, framed hs, sep_line ws] @ map framed cs
                         @ [sep_line ws, summary_line (length rows)]))))"

definition rows_to_text :: "cursor \<Rightarrow> error + string" where
  "rows_to_text cur =
     (case description cur of
        None \<Rightarrow> Inl TypeError
      | Some columns \<Rightarrow>
          if fetched cur = [] then Inr ''(no rows)''
          else (case table_lines columns (fetched cur) of
                  Inl e \<Rightarrow> Inl e
                | Inr ls \<Rightarrow> Inr (join [CHR 0x0A] ls)))"

section \<open>The connection broker: \<^verbatim>\<open>_get_az_token\<close>, \<^verbatim>\<open>_build_conn_str\<close>, \<^verbatim>\<open>get_connection\<close>\<close>

text \<open>
  What the module reaches outside itself is a field of \<open>world\<close>: the process environment,
  the outcome of running the \<^verbatim>\<open>az\<close> command (\<open>Inl\<close> when it cannot be started, else its
  return code and standard output), the driver's \<^verbatim>\<open>connect\<close>, a connection's
  \<^verbatim>\<open>close\<close> (\<open>Some e\<close> when it raises) and \<^verbatim>\<open>conn.cursor()\<close> followed by
  \<^verbatim>\<open>cursor.execute\<close> as one step. A connection is a handle; a \<^verbatim>\<open>pyodbc.Connection\<close>
  defines neither \<^verbatim>\<open>__bool__\<close> nor \<^verbatim>\<open>__len__\<close>, so \<^verbatim>\<open>if conn:\<close> asks whether the
  variable still holds \<^verbatim>\<open>None\<close>.
\<close>

type_synonym connection = nat
type_synonym attrs = "(nat \<times> byte list) list"

record world =
  environ :: "string \<Rightarrow> string option"
  az_run :: "error + (int \<times> string)"
  driver_connect :: "string \<Rightarrow> attrs option \<Rightarrow> error + connection"
  conn_close :: "connection \<Rightarrow> error option"
  cursor_execute :: "connection \<Rightarrow> string \<Rightarrow> string list \<Rightarrow> error + cursor"

text \<open>
  Every call that leaves the process is recorded, in order: the \<^verbatim>\<open>az\<close> run, the
  driver's \<^verbatim>\<open>connect\<close> with its arguments and what it gave back, each statement executed
  with its parameters, and each \<^verbatim>\<open>close\<close>.
\<close>

datatype event =
    RunAz
  | Connect string "attrs option" "error + connection"
  | Execute connection string "string list"
  | Close connection

definition environ_item :: "world \<Rightarrow> string \<Rightarrow> error + string" where
  "environ_item w k = (case environ w k of None \<Rightarrow> Inl (KeyError k) | Some v \<Rightarrow> Inr v)"

definition environ_get :: "world \<Rightarrow> string \<Rightarrow> string \<Rightarrow> string" where
  "environ_get w k d = (case environ w k of None \<Rightarrow> d | Some v \<Rightarrow> v)"

text \<open>\<^verbatim>\<open>subprocess.run(..., check=True)\<close> raises on a non-zero return code.\<close>

definition get_az_token :: "world \<Rightarrow> error + string" where
  "get_az_token w =
     (case az_run w of
        Inl e \<Rightarrow> Inl e
      | Inr (rc, out) \<Rightarrow> if rc \<noteq> 0 then Inl (CalledProcessError rc) else Inr (strip out))"

definition build_conn_str :: "world \<Rightarrow> error + string" where
  "build_conn_str w =
     (case environ_item w ''AZURE_SQL_SERVER'' of
        Inl e \<Rightarrow> Inl e
      | Inr server \<Rightarrow>
          (case environ_item w ''AZURE_SQL_DATABASE'' of
             Inl e \<Rightarrow> Inl e
           | Inr database \<Rightarrow>
               let trust_cert = lower (environ_get w ''AZURE_SQL_TRUST_CERT'' ''no'') in
               Inr (''DRIVER={ODBC Driver 18 for SQL Server};'' @
                    ''SERVER='' @ server @ '';'' @
                    ''DATABASE='' @ database @ '';'' @
                    ''Encrypt=yes;'' @
                    ''TrustServerCertificate='' @ trust_cert @ '';'')))"

subsection \<open>\<^verbatim>\<open>token.encode("utf-16-le")\<close> and \<^verbatim>\<open>struct.pack("<I{n}s", n, token_bytes)\<close>\<close>

definition utf16_unit :: "nat \<Rightarrow> byte list" where
  "utf16_unit u = [of_nat (u mod 256), of_nat (u div 256)]"

definition encode_code_point :: "nat \<Rightarrow> error + byte list" where
  "encode_code_point cp =
     (if cp < 0xD800 \<or> (0xE000 \<le> cp \<and> cp < 0x10000) then Inr (utf16_unit cp)
      else if 0x10000 \<le> cp \<and> cp \<le> 0x10FFFF then
        Inr (utf16_unit (0xD800 + (cp - 0x10000) div 1024) @
             utf16_unit (0xDC00 + (cp - 0x10000) mod 1024))
      else Inl UnicodeEncodeError)"

definition encode_utf16le :: "string \<Rightarrow> error + byte list" where
  "encode_utf16le s =
     (case sequence (map (\<lambda>c. encode_code_point (of_char c)) s) of
        Inl e \<Rightarrow> Inl e
      | Inr bs \<Rightarrow> Inr (concat bs))"

definition le32 :: "nat \<Rightarrow> byte list" where
  "le32 n = [of_nat n, of_nat (n div 256), of_nat (n div 65536), of_nat (n div 16777216)]"

definition pack_token :: "byte list \<Rightarrow> error + byte list" where
  "pack_token token_bytes =
     (if length token_bytes < 2 ^ 32 then Inr (le32 (length token_bytes) @ token_bytes)
      else Inl StructError)"

subsection \<open>The \<^verbatim>\<open>try\<close> block up to \<^verbatim>\<open>yield\<close>, and the \<^verbatim>\<open>finally\<close> block\<close>

text \<open>
  \<open>open_connection\<close> is the body of the \<^verbatim>\<open>try\<close> up to the \<^verbatim>\<open>yield\<close>: its result is
  the value assigned to \<^verbatim>\<open>conn\<close>, or the exception that leaves \<^verbatim>\<open>conn\<close> at
  \<^verbatim>\<open>None\<close>.
\<close>

definition open_connection :: "world \<Rightarrow> string \<Rightarrow> string \<Rightarrow> (error + connection) \<times> event list" where
  "open_connection w auth conn_str =
     (if auth = ''az_cli'' then
        (case get_az_token w of
           Inl e \<Rightarrow> (Inl e, [RunAz])
         | Inr token \<Rightarrow>
             (case encode_utf16le token of
                Inl e \<Rightarrow> (Inl e, [RunAz])
              | Inr token_bytes \<Rightarrow>
                  (case pack_token token_bytes of
                     Inl e \<Rightarrow> (Inl e, [RunAz])
                   | Inr token_struct \<Rightarrow>
                       let r = driver_connect w conn_str (Some [(1256, token_struct)]) in
                       (r, [RunAz, Connect conn_str (Some [(1256, token_struct)]) r]))))
      else
        (case environ_item w ''AZURE_SQL_USER'' of
           Inl e \<Rightarrow> (Inl e, [])
         | Inr user \<Rightarrow>
             (case environ_item w ''AZURE_SQL_PASSWORD'' of
                Inl e \<Rightarrow> (Inl e, [])
              | Inr password \<Rightarrow>
                  let cs = conn_str @ ''UID='' @ user @ '';PWD='' @ password @ '';'';
                      r = driver_connect w cs None
                  in (r, [Connect cs None r]))))"

text \<open>
  \<^verbatim>\<open>finally: if conn: conn.close()\<close>, given the variable \<^verbatim>\<open>conn\<close> and the outcome
  \<open>res\<close> the \<^verbatim>\<open>try\<close> block is leaving with. An exception raised by \<^verbatim>\<open>close\<close> leaves
  the block in place of \<open>res\<close>.
\<close>

definition finally_close :: "world \<Rightarrow> connection option \<Rightarrow> error + 'a \<Rightarrow> (error + 'a) \<times> event list" where
  "finally_close w conn res =
     (case conn of
        None \<Rightarrow> (res, [])
      | Some c \<Rightarrow>
          (case conn_close w c of
             Some e \<Rightarrow> (Inl e, [Close c])
           | None \<Rightarrow> (res, [Close c])))"

text \<open>
  \<^verbatim>\<open>with get_connection() as conn: body\<close>. The caller's work is \<open>body\<close>: given the
  connection it returns its outcome and the statements it executed on the connection, each a
  text with its parameters. The environment is read before the \<^verbatim>\<open>try\<close>, so a missing
  server or database name leaves without reaching \<^verbatim>\<open>finally\<close>.
\<close>

definition get_connection ::
  "world \<Rightarrow> (connection \<Rightarrow> (error + 'a) \<times> (string \<times> string list) list) \<Rightarrow> (error + 'a) \<times> event list" where
  "get_connection w body =
     (let auth = lower (environ_get w ''AZURE_SQL_AUTH'' ''sql'') in
      case build_conn_str w of
        Inl e \<Rightarrow> (Inl e, [])
      | Inr conn_str \<Rightarrow>
          (case open_connection w auth conn_str of
             (Inl e, tr) \<Rightarrow>
               (let (res, tr_f) = finally_close w None (Inl e) in (res, tr @ tr_f))
           | (Inr c, tr) \<Rightarrow>
               (let (out, stmts) = body c;
                    (res, tr_f) = finally_close w (Some c) out
                in (res, tr @ map (\<lambda>(sql, params). Execute c sql params) stmts @ tr_f))))"

section \<open>The handlers: \<^verbatim>\<open>read_resource\<close> and \<^verbatim>\<open>call_tool\<close>\<close>

text \<open>One statement on a fresh cursor, and the text rendered from it.\<close>

definition execute_and_render ::
  "world \<Rightarrow> connection \<Rightarrow> string \<Rightarrow> string list \<Rightarrow> (error + string) \<times> (string \<times> string list) list" where
  "execute_and_render w conn sql params =
     (case cursor_execute w conn sql params of
        Inl e \<Rightarrow> (Inl e, [(sql, params)])
      | Inr cur \<Rightarrow> (rows_to_text cur, [(sql, params)]))"

text \<open>Lines 101 to 105 of \<^verbatim>\<open>read_resource\<close>: from \<^verbatim>\<open>str(uri)\<close> to schema and table.\<close>

definition parse_resource_uri :: "string \<Rightarrow> error + (string \<times> string)" where
  "parse_resource_uri uri =
     (let path = replace ''mssql://'' [] uri;
          parts = split1 CHR ''.'' path
      in if length parts \<noteq> 2 then Inl (ValueError (''Invalid resource URI: '' @ uri))
         else Inr (parts ! 0, parts ! 1))"


text \<open>
  The arguments of a tool call, typed as the \<^verbatim>\<open>inputSchema\<close> of \<^verbatim>\<open>list_tools\<close>
  declares them: three strings and an integer, each of them possibly absent.
\<close>

record tool_args =
  arg_schema :: "string option"
  arg_table :: "string option"
  arg_rows :: "int option"
  arg_sql :: "string option"

definition required :: "string \<Rightarrow> 'a option \<Rightarrow> error + 'a" where
  "required k v = (case v of None \<Rightarrow> Inl (KeyError k) | Some x \<Rightarrow> Inr x)"

definition sql_list_schemas :: string where
  "sql_list_schemas =
     ''SELECT SCHEMA_NAME FROM INFORMATION_SCHEMA.SCHEMATA ORDER BY SCHEMA_NAME''"

definition sql_list_tables_in_schema :: string where
  "sql_list_tables_in_schema =
     ''\<newline>'' @
     ''                    SELECT TABLE_SCHEMA, TABLE_NAME\<newline>'' @
     ''                    FROM INFORMATION_SCHEMA.TABLES\<newline>'' @
     ''                    WHERE TABLE_TYPE = 'BASE TABLE' AND TABLE_SCHEMA = ?\<newline>'' @
     ''                    ORDER BY TABLE_NAME\<newline>'' @
     ''                ''"

definition sql_list_tables :: string where
  "sql_list_tables =
     ''\<newline>'' @
     ''                    SELECT TABLE_SCHEMA, TABLE_NAME\<newline>'' @
     ''                    FROM INFORMATION_SCHEMA.TABLES\<newline>'' @
     ''                    WHERE TABLE_TYPE = 'BASE TABLE'\<newline>'' @
     ''                    ORDER BY TABLE_SCHEMA, TABLE_NAME\<newline>'' @
     ''                ''"

definition sql_describe_table :: string where
  "sql_describe_table =
     ''\<newline>'' @
     ''                SELECT\<newline>'' @
     ''                    c.COLUMN_NAME,\<newline>'' @
     ''                    c.DATA_TYPE,\<newline>'' @
     ''                    COALESCE(CAST(c.CHARACTER_MAXIMUM_LENGTH AS VARCHAR), CAST(c.NUMERIC_PRECISION AS VARCHAR) + ',' + CAST(c.NUMERIC_SCALE AS VARCHAR), '' @ [CHR 0x27, CHR 0x27] @ '') AS SIZE,\<newline>'' @
     ''                    c.IS_NULLABLE,\<newline>'' @
     ''                    CASE WHEN pk.COLUMN_NAME IS NOT NULL THEN 'YES' ELSE 'NO' END AS IS_PK\<newline>'' @
     ''                FROM INFORMATION_SCHEMA.COLUMNS c\<newline>'' @
     ''                LEFT JOIN (\<newline>'' @
     ''                    SELECT ku.COLUMN_NAME\<newline>'' @
     ''                    FROM INFORMATION_SCHEMA.TABLE_CONSTRAINTS tc\<newline>'' @
     ''                    JOIN INFORMATION_SCHEMA.KEY_COLUMN_USAGE ku\<newline>'' @
     ''                        ON tc.CONSTRAINT_NAME = ku.CONSTRAINT_NAME\<newline>'' @
     ''                        AND tc.TABLE_SCHEMA = ku.TABLE_SCHEMA\<newline>'' @
     ''                        AND tc.TABLE_NAME = ku.TABLE_NAME\<newline>'' @
     ''                    WHERE tc.CONSTRAINT_TYPE = 'PRIMARY KEY'\<newline>'' @
     ''                      AND tc.TABLE_SCHEMA = ?\<newline>'' @
     ''                      AND tc.TABLE_NAME = ?\<newline>'' @
     ''                ) pk ON c.COLUMN_NAME = pk.COLUMN_NAME\<newline>'' @
     ''                WHERE c.TABLE_SCHEMA = ? AND c.TABLE_NAME = ?\<newline>'' @
     ''                ORDER BY c.ORDINAL_POSITION\<newline>'' @
     ''            ''"

text \<open>\<^verbatim>\<open>n = min(int(arguments.get("rows", 50)), 500)\<close>\<close>

definition sample_rows :: "tool_args \<Rightarrow> int" where
  "sample_rows arguments = min (case arg_rows arguments of None \<Rightarrow> 50 | Some r \<Rightarrow> r) 500"

definition sample_sql :: "int \<Rightarrow> string \<Rightarrow> string \<Rightarrow> string" where
  "sample_sql n schema table =
     ''SELECT TOP '' @ str_int n @ '' * FROM ['' @ schema @ ''].['' @ table @ '']''"

text \<open>\<^verbatim>\<open>"\n".join(...)\<close> accepts strings only.\<close>

definition as_str :: "sql_value \<Rightarrow> error + string" where
  "as_str v = (case v of VStr s \<Rightarrow> Inr s | _ \<Rightarrow> Inl TypeError)"

definition table_name_line :: "sql_value list \<Rightarrow> error + string" where
  "table_name_line row =
     (case index row 0 of
        Inl e \<Rightarrow> Inl e
      | Inr a \<Rightarrow> (case index row 1 of Inl e \<Rightarrow> Inl e | Inr b \<Rightarrow> Inr (py_str a @ ''.'' @ py_str b)))"

text \<open>
  The block under \<^verbatim>\<open>with get_connection() as conn:\<close> in \<^verbatim>\<open>call_tool\<close>. Its result is
  the text \<^verbatim>\<open>output\<close>, which the handler returns as the one text content of its list.
\<close>

definition tool_body ::
  "world \<Rightarrow> string \<Rightarrow> tool_args \<Rightarrow> connection \<Rightarrow> (error + string) \<times> (string \<times> string list) list" where
  "tool_body w name arguments conn =
     (if name = ''list_schemas'' then
        (case cursor_execute w conn sql_list_schemas [] of
           Inl e \<Rightarrow> (Inl e, [(sql_list_schemas, [])])
         | Inr cur \<Rightarrow>
             (case sequence (map (\<lambda>row. index row 0) (fetched cur)) of
                Inl e \<Rightarrow> (Inl e, [(sql_list_schemas, [])])
              | Inr schemas \<Rightarrow>
                  (case sequence (map as_str schemas) of
                     Inl e \<Rightarrow> (Inl e, [(sql_list_schemas, [])])
                   | Inr names \<Rightarrow> (Inr (join [CHR 0x0A] names), [(sql_list_schemas, [])]))))
      else if name = ''list_tables'' then
        (let (sql, params) =
               (case arg_schema arguments of
                  None \<Rightarrow> (sql_list_tables, [])
                | Some schema \<Rightarrow>
                    if schema \<noteq> [] then (sql_list_tables_in_schema, [schema])
                    else (sql_list_tables, []))
         in case cursor_execute w conn sql params of
              Inl e \<Rightarrow> (Inl e, [(sql, params)])
            | Inr cur \<Rightarrow>
                (case sequence (map table_name_line (fetched cur)) of
                   Inl e \<Rightarrow> (Inl e, [(sql, params)])
                 | Inr names \<Rightarrow>
                     (Inr (join [CHR 0x0A] names @ [CHR 0x0A, CHR 0x0A] @
                           ''('' @ str_nat (length (fetched cur)) @ '' tables)''),
                      [(sql, params)])))
      else if name = ''describe_table'' then
        (case required ''schema'' (arg_schema arguments) of
           Inl e \<Rightarrow> (Inl e, [])
         | Inr schema \<Rightarrow>
             (case required ''table'' (arg_table arguments) of
                Inl e \<Rightarrow> (Inl e, [])
              | Inr table \<Rightarrow>
                  execute_and_render w conn sql_describe_table [schema, table, schema, table]))
      else if name = ''sample_table'' then
        (case required ''schema'' (arg_schema arguments) of
           Inl e \<Rightarrow> (Inl e, [])
         | Inr schema \<Rightarrow>
             (case required ''table'' (arg_table arguments) of
                Inl e \<Rightarrow> (Inl e, [])
              | Inr table \<Rightarrow>
                  execute_and_render w conn (sample_sql (sample_rows arguments) schema table) []))
      else if name = ''execute_query'' then
        (case required ''sql'' (arg_sql arguments) of
           Inl e \<Rightarrow> (Inl e, [])
         | Inr sql \<Rightarrow>
             (case cursor_execute w conn sql [] of
                Inl e \<Rightarrow> (Inl e, [(sql, [])])
              | Inr cur \<Rightarrow>
                  (if description cur \<noteq> None \<and> description cur \<noteq> Some []
                   then (rows_to_text cur, [(sql, [])])
                   else (Inr (str_int (rowcount cur) @ '' row(s) affected''), [(sql, [])]))))
      else (Inl (ValueError (''Unknown tool: '' @ name)), []))"

definition call_tool :: "world \<Rightarrow> string \<Rightarrow> tool_args \<Rightarrow> (error + string) \<times> event list" where
  "call_tool w name arguments = get_connection w (tool_body w name arguments)"

section \<open>Observations on a trace\<close>

text \<open>
  The connections the driver gave back, the connections closed, the arguments of every
  \<^verbatim>\<open>connect\<close> and the statements executed, each in the order of the trace.
\<close>

fun opened :: "event list \<Rightarrow> connection list" where
  "opened [] = []"
| "opened (Connect cs a (Inr c) # tr) = c # opened tr"
| "opened (e # tr) = opened tr"

fun closed :: "event list \<Rightarrow> connection list" where
  "closed [] = []"
| "closed (Close c # tr) = c # closed tr"
| "closed (e # tr) = closed tr"

fun connects :: "event list \<Rightarrow> (string \<times> attrs option) list" where
  "connects [] = []"
| "connects (Connect cs a r # tr) = (cs, a) # connects tr"
| "connects (e # tr) = connects tr"

fun executed :: "event list \<Rightarrow> (string \<times> string list) list" where
  "executed [] = []"
| "executed (Execute c sql params # tr) = (sql, params) # executed tr"
| "executed (e # tr) = executed tr"

section \<open>The widths and cells of a rectangular result\<close>



section \<open>Worlds to run the module in\<close>

text \<open>
  \<open>static_world\<close> has the four variables of SQL authentication set, a driver that opens
  connection 7, a \<^verbatim>\<open>close\<close> that succeeds and a cursor with one column \<^verbatim>\<open>x\<close> holding
  1, NULL and 100. \<open>az_world rc out\<close> asks for \<^verbatim>\<open>az_cli\<close> authentication and has the
  \<^verbatim>\<open>az\<close> command end with return code \<open>rc\<close> and output \<open>out\<close>.
\<close>

definition example_cursor :: cursor where
  "example_cursor = \<lparr>description = Some [''x''], fetched = [[VInt 1], [VNone], [VInt 100]], rowcount = - 1\<rparr>"

definition static_environ :: "string \<Rightarrow> string option" where
  "static_environ =
     [''AZURE_SQL_SERVER'' \<mapsto> ''srv'', ''AZURE_SQL_DATABASE'' \<mapsto> ''db'',
      ''AZURE_SQL_USER'' \<mapsto> ''u'', ''AZURE_SQL_PASSWORD'' \<mapsto> ''p'']"

definition static_world :: world where
  "static_world =
     \<lparr>environ = static_environ,
      az_run = Inl FileNotFoundError,
      driver_connect = (\<lambda>cs a. Inr 7),
      conn_close = (\<lambda>c. None),
      cursor_execute = (\<lambda>c sql params. Inr example_cursor)\<rparr>"

definition az_environ :: "string \<Rightarrow> string option" where
  "az_environ =
     [''AZURE_SQL_AUTH'' \<mapsto> ''az_cli'', ''AZURE_SQL_SERVER'' \<mapsto> ''srv'',
      ''AZURE_SQL_DATABASE'' \<mapsto> ''db'']"

definition az_world :: "int \<Rightarrow> string \<Rightarrow> world" where
  "az_world rc out = static_world\<lparr>environ := az_environ, az_run := Inr (rc, out)\<rparr>"

text \<open>\<open>close_failing_world\<close> is \<open>static_world\<close> with a \<^verbatim>\<open>close\<close> that raises.\<close>

definition close_failing_world :: world where
  "close_failing_world = static_world\<lparr>conn_close := (\<lambda>c. Some (DriverError ''close failed''))\<rparr>"

text \<open>A caller whose work succeeds without a statement, and one whose work raises.\<close>

definition idle_work :: "connection \<Rightarrow> (error + unit) \<times> (string \<times> string list) list" where
  "idle_work c = (Inr (), [])"

definition failing_work :: "connection \<Rightarrow> (error + unit) \<times> (string \<times> string list) list" where
  "failing_work c = (Inl (WorkError ''boom''), [(''SELECT 1'', [])])"

section \<open>Reading the length prefix, and two requests\<close>

text \<open>
  How a reader of the token structure takes its first four bytes as an unsigned integer,
  least significant byte first.
\<close>

definition read_le32 :: "byte list \<Rightarrow> nat" where
  "read_le32 bs = unat (bs ! 0) + 256 * unat (bs ! 1) + 65536 * unat (bs ! 2) + 16777216 * unat (bs ! 3)"

text \<open>Two calls of \<^verbatim>\<open>sample_table\<close>, asking for - 5 rows and for 1000 rows.\<close>

definition negative_request :: tool_args where
  "negative_request = \<lparr>arg_schema = Some ''dbo'', arg_table = Some ''T'', arg_rows = Some (- 5), arg_sql = None\<rparr>"

definition large_request :: tool_args where
  "large_request = \<lparr>arg_schema = Some ''dbo'', arg_table = Some ''T'', arg_rows = Some 1000, arg_sql = None\<rparr>"

section \<open>Lemmas on the renderer\<close>

lemma sequence_map_Inr:
  "(\<And>x. x \<in> set xs \<Longrightarrow> f x = Inr (g x)) \<Longrightarrow> sequence (map f xs) = Inr (map g xs)"
  by (induction xs) auto





















section \<open>Lemmas on traces and on the scoped connection\<close>

lemma opened_append: "opened (xs @ ys) = opened xs @ opened ys"
  by (induction xs rule: opened.induct) auto
lemma closed_append: "closed (xs @ ys) = closed xs @ closed ys"
  by (induction xs rule: closed.induct) auto
lemma connects_append: "connects (xs @ ys) = connects xs @ connects ys"
  by (induction xs rule: connects.induct) auto
lemma executed_append: "executed (xs @ ys) = executed xs @ executed ys"
  by (induction xs rule: executed.induct) auto

lemma opened_Execute: "opened (map (\<lambda>(sql, params). Execute c sql params) stmts) = []"
  by (induction stmts) auto
lemma closed_Execute: "closed (map (\<lambda>(sql, params). Execute c sql params) stmts) = []"
  by (induction stmts) auto
lemma connects_Execute: "connects (map (\<lambda>(sql, params). Execute c sql params) stmts) = []"
  by (induction stmts) auto
lemma executed_Execute: "executed (map (\<lambda>(sql, params). Execute c sql params) stmts) = stmts"
  by (induction stmts) auto

lemma opened_Connect:
  "opened (Connect cs a r # tr) = (case r of Inl e \<Rightarrow> opened tr | Inr c \<Rightarrow> c # opened tr)"
  by (cases r) auto

lemma open_connection_Inl:
  assumes "open_connection w auth cs = (Inl e, tr)"
  shows "opened tr = [] \<and> closed tr = [] \<and> executed tr = []"
  using assms
  by (auto simp: open_connection_def Let_def opened_Connect split: if_splits sum.splits)

lemma open_connection_Inr:
  assumes "open_connection w auth cs = (Inr c, tr)"
  shows "opened tr = [c] \<and> closed tr = [] \<and> executed tr = []"
  using assms
  by (auto simp: open_connection_def Let_def opened_Connect split: if_splits sum.splits)

lemma finally_close_None: "finally_close w None res = (res, [])"
  by (simp add: finally_close_def)

lemma finally_close_Some:
  "finally_close w (Some c) res =
     (case conn_close w c of Some e \<Rightarrow> Inl e | None \<Rightarrow> res, [Close c])"
  by (simp add: finally_close_def split: option.splits)

lemma get_connection_unopened:
  assumes "build_conn_str w = Inl e"
  shows "get_connection w body = (Inl e, [])"
  using assms by (simp add: get_connection_def)

lemma get_connection_failed:
  assumes "build_conn_str w = Inr cs"
    and "open_connection w (lower (environ_get w ''AZURE_SQL_AUTH'' ''sql'')) cs = (Inl e, tr)"
  shows "get_connection w body = (Inl e, tr)"
  using assms by (simp add: get_connection_def finally_close_None)

lemma get_connection_opened:
  assumes "build_conn_str w = Inr cs"
    and "open_connection w (lower (environ_get w ''AZURE_SQL_AUTH'' ''sql'')) cs = (Inr c, tr)"
  shows "get_connection w body =
     (case conn_close w c of Some e \<Rightarrow> Inl e | None \<Rightarrow> fst (body c),
      tr @ map (\<lambda>(sql, params). Execute c sql params) (snd (body c)) @ [Close c])"
  using assms by (cases "body c") (simp add: get_connection_def finally_close_Some split: option.splits)

lemma get_connection_cases:
  obtains (unopened) e tr where "get_connection w body = (Inl e, tr)"
      "opened tr = []" "closed tr = []" "executed tr = []"
  | (opened) c pre where
      "get_connection w body =
         (case conn_close w c of Some e \<Rightarrow> Inl e | None \<Rightarrow> fst (body c),
          pre @ map (\<lambda>(sql, params). Execute c sql params) (snd (body c)) @ [Close c])"
      "opened pre = [c]" "closed pre = []" "executed pre = []"
proof (cases "build_conn_str w")
  case (Inl e)
  then have "get_connection w body = (Inl e, [])" by (rule get_connection_unopened)
  then show ?thesis by (rule unopened) simp_all
next
  case (Inr cs)
  obtain r tr where o: "open_connection w (lower (environ_get w ''AZURE_SQL_AUTH'' ''sql'')) cs = (r, tr)"
    by (cases "open_connection w (lower (environ_get w ''AZURE_SQL_AUTH'' ''sql'')) cs")
  show ?thesis
  proof (cases r)
    case (Inl e)
    with o have o': "open_connection w (lower (environ_get w ''AZURE_SQL_AUTH'' ''sql'')) cs = (Inl e, tr)"
      by simp
    from Inr o' have g: "get_connection w body = (Inl e, tr)" by (rule get_connection_failed)
    from open_connection_Inl [OF o'] have "opened tr = []" "closed tr = []" "executed tr = []"
      by simp_all
    with g show ?thesis by (rule unopened)
  next
    case (Inr c)
    with o have o': "open_connection w (lower (environ_get w ''AZURE_SQL_AUTH'' ''sql'')) cs = (Inr c, tr)"
      by simp
    from \<open>build_conn_str w = Inr cs\<close> o' have g: "get_connection w body =
         (case conn_close w c of Some e \<Rightarrow> Inl e | None \<Rightarrow> fst (body c),
          tr @ map (\<lambda>(sql, params). Execute c sql params) (snd (body c)) @ [Close c])"
      by (rule get_connection_opened)
    from open_connection_Inr [OF o'] have "opened tr = [c]" "closed tr = []" "executed tr = []"
      by simp_all
    with g show ?thesis by (rule opened)
  qed
qed


section \<open>The scoped connection\<close>

text \<open>
  C1. Whatever the world and whatever the caller's work does, a connection the driver gave back
  is closed, once and after the last statement of the work, also when the work raised; and
  when no connection was opened the block fails and nothing is closed.
\<close>

theorem get_connection_closes_what_it_opened:
  "closed (snd (get_connection w body)) = opened (snd (get_connection w body)) \<and>
   ((\<exists>e. fst (get_connection w body) = Inl e \<and> opened (snd (get_connection w body)) = [])
    \<or> (\<exists>c pre. snd (get_connection w body) =
                  pre @ map (\<lambda>(sql, params). Execute c sql params) (snd (body c)) @ [Close c]
              \<and> opened pre = [c] \<and> closed pre = []))"
proof (cases rule: get_connection_cases [of w body])
  case (unopened e tr)
  then show ?thesis by simp
next
  case (opened c pre)
  have "closed (snd (get_connection w body)) = opened (snd (get_connection w body))"
    by (simp add: opened closed_append opened_append closed_Execute opened_Execute)
  moreover have "\<exists>c pre. snd (get_connection w body) =
                  pre @ map (\<lambda>(sql, params). Execute c sql params) (snd (body c)) @ [Close c]
              \<and> opened pre = [c] \<and> closed pre = []"
    using opened by auto
  ultimately show ?thesis by blast
qed

lemma failing_work_run:
  "get_connection static_world failing_work =
     (Inl (WorkError ''boom''),
      [Connect ''DRIVER={ODBC Driver 18 for SQL Server};SERVER=srv;DATABASE=db;Encrypt=yes;TrustServerCertificate=no;UID=u;PWD=p;''
         None (Inr 7),
       Execute 7 ''SELECT 1'' [], Close 7])"
  by (simp add: get_connection_def open_connection_def finally_close_def build_conn_str_def
      environ_item_def environ_get_def static_world_def static_environ_def lower_def
      lower_char_def failing_work_def Let_def)

text \<open>The caller's work raises in \<open>static_world\<close>, and connection 7 is closed all the same.\<close>

theorem get_connection_closes_what_it_opened_witness:
  "fst (get_connection static_world failing_work) = Inl (WorkError ''boom'')
   \<and> opened (snd (get_connection static_world failing_work)) = [7]
   \<and> closed (snd (get_connection static_world failing_work)) = [7]"
proof -
  have o: "opened (snd (get_connection static_world failing_work)) = [7]"
    by (simp add: failing_work_run)
  have f: "fst (get_connection static_world failing_work) = Inl (WorkError ''boom'')"
    by (simp add: failing_work_run)
  from get_connection_closes_what_it_opened [of static_world failing_work]
  have "closed (snd (get_connection static_world failing_work)) =
        opened (snd (get_connection static_world failing_work))" ..
  with o f show ?thesis by simp
qed

section \<open>The rendered table\<close>





section \<open>Closing the connection\<close>

lemma static_build_conn_str:
  "build_conn_str static_world =
     Inr ''DRIVER={ODBC Driver 18 for SQL Server};SERVER=srv;DATABASE=db;Encrypt=yes;TrustServerCertificate=no;''"
  by (simp add: build_conn_str_def environ_item_def environ_get_def static_world_def
      static_environ_def lower_def lower_char_def)

lemma close_failing_run:
  "get_connection close_failing_world idle_work =
     (Inl (DriverError ''close failed''),
      [Connect ''DRIVER={ODBC Driver 18 for SQL Server};SERVER=srv;DATABASE=db;Encrypt=yes;TrustServerCertificate=no;UID=u;PWD=p;''
         None (Inr 7), Close 7])"
  by (simp add: get_connection_def open_connection_def finally_close_def build_conn_str_def
      environ_item_def environ_get_def close_failing_world_def static_world_def
      static_environ_def lower_def lower_char_def idle_work_def Let_def)

text \<open>
  C2, as the code has it: \<^verbatim>\<open>conn.close()\<close> stands in the \<^verbatim>\<open>finally\<close> block with no handler
  around it. When a connection \<open>c\<close> was opened, the block ends with the exception of
  \<^verbatim>\<open>close\<close> if it raises one, in place of the outcome of the caller's work, and with the
  outcome of the caller's work otherwise.
\<close>

theorem close_error_reaches_caller:
  assumes "opened (snd (get_connection w body)) = [c]"
  shows "fst (get_connection w body) =
           (case conn_close w c of Some e \<Rightarrow> Inl e | None \<Rightarrow> fst (body c))"
proof (cases rule: get_connection_cases [of w body])
  case (unopened e tr)
  with assms show ?thesis by simp
next
  case (opened c' pre)
  with assms have "c' = c"
    by (simp add: opened_append opened_Execute)
  with opened show ?thesis by (simp split: option.splits)
qed

theorem close_error_reaches_caller_witness:
  "opened (snd (get_connection close_failing_world idle_work)) = [7]
   \<and> fst (get_connection close_failing_world idle_work) = Inl (DriverError ''close failed'')"
proof -
  have o: "opened (snd (get_connection close_failing_world idle_work)) = [7]"
    by (simp add: close_failing_run)
  from close_error_reaches_caller [OF o] o show ?thesis
    by (simp add: close_failing_world_def)
qed

text \<open>
  The claim that an error of \<^verbatim>\<open>close\<close> is swallowed fails in \<open>close_failing_world\<close>: the
  caller's work succeeds, \<^verbatim>\<open>close\<close> raises, and the block ends with that error.
\<close>

theorem close_error_not_swallowed:
  "opened (snd (get_connection close_failing_world idle_work)) = [7]
   \<and> conn_close close_failing_world 7 = Some (DriverError ''close failed'')
   \<and> fst (idle_work 7) = Inr ()
   \<and> fst (get_connection close_failing_world idle_work) = Inl (DriverError ''close failed'')"
  by (simp add: close_failing_run) (simp add: close_failing_world_def idle_work_def)

section \<open>Token retrieval\<close>

lemma get_connection_trace:
  assumes "build_conn_str w = Inr cs"
    and "open_connection w (lower (environ_get w ''AZURE_SQL_AUTH'' ''sql'')) cs = (r, tr)"
  shows "snd (get_connection w body) =
           tr @ (case r of Inl e \<Rightarrow> []
                 | Inr c \<Rightarrow> map (\<lambda>(sql, params). Execute c sql params) (snd (body c)) @ [Close c])"
proof (cases r)
  case (Inl e)
  with assms show ?thesis by (simp add: get_connection_failed)
next
  case (Inr c)
  with assms show ?thesis by (simp add: get_connection_opened)
qed

lemma connects_get_connection:
  assumes "build_conn_str w = Inr cs"
    and "open_connection w (lower (environ_get w ''AZURE_SQL_AUTH'' ''sql'')) cs = (r, tr)"
  shows "connects (snd (get_connection w body)) = connects tr"
  unfolding get_connection_trace [OF assms]
  by (cases r) (simp_all add: connects_append connects_Execute)

lemma open_connection_az:
  assumes "get_az_token w = Inr token" and "encode_utf16le token = Inr tb"
    and "pack_token tb = Inr ts"
  shows "open_connection w ''az_cli'' cs =
           (driver_connect w cs (Some [(1256, ts)]),
            [RunAz, Connect cs (Some [(1256, ts)]) (driver_connect w cs (Some [(1256, ts)]))])"
  using assms by (simp add: open_connection_def Let_def)

lemma open_connection_az_failed:
  assumes "get_az_token w = Inl e"
  shows "open_connection w ''az_cli'' cs = (Inl e, [RunAz])"
  using assms by (simp add: open_connection_def)

lemma open_connection_static:
  assumes "auth \<noteq> ''az_cli''" and "environ w ''AZURE_SQL_USER'' = Some u"
    and "environ w ''AZURE_SQL_PASSWORD'' = Some p"
  shows "open_connection w auth cs =
           (driver_connect w (cs @ ''UID='' @ u @ '';PWD='' @ p @ '';'') None,
            [Connect (cs @ ''UID='' @ u @ '';PWD='' @ p @ '';'') None
               (driver_connect w (cs @ ''UID='' @ u @ '';PWD='' @ p @ '';'') None)])"
  using assms by (simp add: open_connection_def Let_def environ_item_def)

lemma encode_utf16le_empty: "encode_utf16le [] = Inr []"
  by (simp add: encode_utf16le_def)

lemma pack_token_empty: "pack_token [] = Inr [0, 0, 0, 0]"
  by (simp add: pack_token_def le32_def)

lemma az_world_auth: "lower (environ_get (az_world rc out) ''AZURE_SQL_AUTH'' ''sql'') = ''az_cli''"
  by (simp add: az_world_def az_environ_def environ_get_def lower_def lower_char_def)

lemma az_world_conn_str:
  "build_conn_str (az_world rc out) =
     Inr ''DRIVER={ODBC Driver 18 for SQL Server};SERVER=srv;DATABASE=db;Encrypt=yes;TrustServerCertificate=no;''"
  by (simp add: build_conn_str_def environ_item_def environ_get_def az_world_def
      az_environ_def lower_def lower_char_def)

lemma az_world_run: "az_run (az_world rc out) = Inr (rc, out)"
  by (simp add: az_world_def)

text \<open>
  C3, as the code has it: in \<^verbatim>\<open>az_cli\<close> mode a non-zero return code of the command ends
  the block with \<^verbatim>\<open>CalledProcessError\<close> after the run of the command alone, so no
  \<^verbatim>\<open>connect\<close> is attempted. The output is not tested for emptiness: with return code 0 and
  an output that strips to the empty string, \<^verbatim>\<open>connect\<close> is called with the token
  structure of an empty token, the four bytes of the length 0.
\<close>

theorem az_token_failure:
  assumes "lower (environ_get w ''AZURE_SQL_AUTH'' ''sql'') = ''az_cli''"
    and "build_conn_str w = Inr cs" and "az_run w = Inr (rc, out)"
  shows "(rc \<noteq> 0 \<longrightarrow> get_connection w body = (Inl (CalledProcessError rc), [RunAz]))
       \<and> (rc = 0 \<and> strip out = [] \<longrightarrow>
            connects (snd (get_connection w body)) = [(cs, Some [(1256, [0, 0, 0, 0])])])"
proof (intro conjI impI)
  assume "rc \<noteq> 0"
  with assms(3) have "get_az_token w = Inl (CalledProcessError rc)"
    by (simp add: get_az_token_def)
  then have "open_connection w ''az_cli'' cs = (Inl (CalledProcessError rc), [RunAz])"
    by (rule open_connection_az_failed)
  with assms(1,2) show "get_connection w body = (Inl (CalledProcessError rc), [RunAz])"
    by (simp add: get_connection_failed)
next
  assume a: "rc = 0 \<and> strip out = []"
  with assms(3) have "get_az_token w = Inr []"
    by (simp add: get_az_token_def)
  then have "open_connection w ''az_cli'' cs =
           (driver_connect w cs (Some [(1256, [0, 0, 0, 0])]),
            [RunAz, Connect cs (Some [(1256, [0, 0, 0, 0])]) (driver_connect w cs (Some [(1256, [0, 0, 0, 0])]))])"
    using encode_utf16le_empty pack_token_empty by (rule open_connection_az)
  with assms(1) have "open_connection w (lower (environ_get w ''AZURE_SQL_AUTH'' ''sql'')) cs =
           (driver_connect w cs (Some [(1256, [0, 0, 0, 0])]),
            [RunAz, Connect cs (Some [(1256, [0, 0, 0, 0])]) (driver_connect w cs (Some [(1256, [0, 0, 0, 0])]))])"
    by simp
  from connects_get_connection [OF assms(2) this, of body]
  show "connects (snd (get_connection w body)) = [(cs, Some [(1256, [0, 0, 0, 0])])]"
    by simp
qed

theorem az_token_failure_witness:
  "get_connection (az_world 1 []) idle_work = (Inl (CalledProcessError 1), [RunAz])
   \<and> connects (snd (get_connection (az_world 0 [CHR 0x0A]) idle_work)) =
       [(''DRIVER={ODBC Driver 18 for SQL Server};SERVER=srv;DATABASE=db;Encrypt=yes;TrustServerCertificate=no;'',
         Some [(1256, [0, 0, 0, 0])])]"
proof -
  have s: "strip [CHR 0x0A] = []" by (simp add: strip_def isspace_def)
  from az_token_failure [OF az_world_auth az_world_conn_str az_world_run, of 1 "[]" idle_work]
       az_token_failure [OF az_world_auth az_world_conn_str az_world_run, of 0 "[CHR 0x0A]" idle_work]
       s
  show ?thesis by simp
qed

text \<open>
  The claim that empty output fails without a connection attempt is false in
  \<open>az_world 0\<close> with a newline as output: the block succeeds and the trace holds the
  \<^verbatim>\<open>connect\<close>.
\<close>

theorem empty_token_still_connects:
  "az_run (az_world 0 [CHR 0x0A]) = Inr (0, [CHR 0x0A])
   \<and> strip [CHR 0x0A] = []
   \<and> get_connection (az_world 0 [CHR 0x0A]) idle_work =
       (Inr (),
        [RunAz,
         Connect ''DRIVER={ODBC Driver 18 for SQL Server};SERVER=srv;DATABASE=db;Encrypt=yes;TrustServerCertificate=no;''
           (Some [(1256, [0, 0, 0, 0])]) (Inr 7),
         Close 7])"
  by (simp add: get_connection_def open_connection_def finally_close_def build_conn_str_def
      environ_item_def environ_get_def az_world_def az_environ_def static_world_def
      get_az_token_def strip_def isspace_def encode_utf16le_def pack_token_def le32_def
      lower_def lower_char_def idle_work_def Let_def)

section \<open>Reading a table resource\<close>

lemma snd_execute_and_render: "snd (execute_and_render w c sql params) = [(sql, params)]"
  by (simp add: execute_and_render_def split: sum.splits)


section \<open>Static credentials\<close>

lemma static_world_auth: "lower (environ_get static_world ''AZURE_SQL_AUTH'' ''sql'') \<noteq> ''az_cli''"
  by (simp add: static_world_def static_environ_def environ_get_def lower_def lower_char_def)

lemma runaz_notin_Execute: "RunAz \<notin> set (map (\<lambda>(sql, params). Execute c sql params) stmts)"
  by (induction stmts) auto

text \<open>
  C8. When the authentication mode is not \<^verbatim>\<open>az_cli\<close> and user and password are set, the
  one \<^verbatim>\<open>connect\<close> of the block gets the base string followed by
  \<^verbatim>\<open>UID=<user>;PWD=<password>;\<close> and no attributes, and the \<^verbatim>\<open>az\<close> command is not run.
\<close>

theorem static_credentials_appended:
  assumes "lower (environ_get w ''AZURE_SQL_AUTH'' ''sql'') \<noteq> ''az_cli''"
    and "build_conn_str w = Inr base"
    and "environ w ''AZURE_SQL_USER'' = Some u" and "environ w ''AZURE_SQL_PASSWORD'' = Some p"
  shows "connects (snd (get_connection w body)) = [(base @ ''UID='' @ u @ '';PWD='' @ p @ '';'', None)]
       \<and> RunAz \<notin> set (snd (get_connection w body))"
proof -
  let ?cs = "base @ ''UID='' @ u @ '';PWD='' @ p @ '';''"
  let ?r = "driver_connect w ?cs None"
  have o: "open_connection w (lower (environ_get w ''AZURE_SQL_AUTH'' ''sql'')) base =
           (?r, [Connect ?cs None ?r])"
    using assms(1,3,4) by (rule open_connection_static)
  have "connects (snd (get_connection w body)) = connects [Connect ?cs None ?r]"
    using assms(2) o by (rule connects_get_connection)
  then have a: "connects (snd (get_connection w body)) = [(?cs, None)]" by simp
  have b: "RunAz \<notin> set (snd (get_connection w body))"
    unfolding get_connection_trace [OF assms(2) o]
    by (cases ?r) auto
  from a b show ?thesis ..
qed

theorem static_credentials_appended_witness:
  "connects (snd (get_connection static_world idle_work)) =
     [(''DRIVER={ODBC Driver 18 for SQL Server};SERVER=srv;DATABASE=db;Encrypt=yes;TrustServerCertificate=no;UID=u;PWD=p;'', None)]
   \<and> RunAz \<notin> set (snd (get_connection static_world idle_work))"
proof -
  have u: "environ static_world ''AZURE_SQL_USER'' = Some ''u''"
    by (simp add: static_world_def static_environ_def)
  have p: "environ static_world ''AZURE_SQL_PASSWORD'' = Some ''p''"
    by (simp add: static_world_def static_environ_def)
  from static_credentials_appended [OF static_world_auth static_build_conn_str u p, of idle_work]
  show ?thesis by simp
qed

section \<open>The access token\<close>

lemma encode_code_point_char:
  "encode_code_point (of_char c) = Inr [of_nat (of_char c), 0]"
proof -
  have "(of_char c :: nat) < 256" by simp
  then have "(of_char c :: nat) < 55296" by linarith
  then show ?thesis by (simp add: encode_code_point_def utf16_unit_def)
qed

lemma encode_utf16le_chars:
  "encode_utf16le s = Inr (concat (map (\<lambda>c. [of_nat (of_char c), 0]) s))"
proof -
  have "sequence (map (\<lambda>c. encode_code_point (of_char c)) s)
        = Inr (map (\<lambda>c. [of_nat (of_char c), 0]) s)"
    by (rule sequence_map_Inr) (rule encode_code_point_char)
  then show ?thesis by (simp add: encode_utf16le_def)
qed

lemma length_utf16_chars:
  "length (concat (map (\<lambda>c. [f c, z]) s)) = 2 * length s"
  by (induction s) auto

lemma le32_digits:
  assumes "n < 2 ^ 32"
  shows "n mod 256 + 256 * (n div 256 mod 256) + 65536 * (n div 65536 mod 256)
         + 16777216 * (n div 16777216 mod 256) = (n::nat)"
proof -
  have d2: "n div 65536 = n div 256 div 256"
    by (simp add: div_mult2_eq [symmetric])
  have d3: "n div 16777216 = n div 256 div 256 div 256"
    by (simp add: div_mult2_eq [symmetric])
  have s0: "n = 256 * (n div 256) + n mod 256" by simp
  have s1: "n div 256 = 256 * (n div 256 div 256) + n div 256 mod 256" by simp
  have s2: "n div 256 div 256 = 256 * (n div 256 div 256 div 256) + n div 256 div 256 mod 256"
    by simp
  have "n div 16777216 < 256" using assms by (simp add: less_mult_imp_div_less)
  then have s3: "n div 256 div 256 div 256 mod 256 = n div 256 div 256 div 256"
    by (simp add: d3)
  show ?thesis unfolding d2 d3 s3 using s0 s1 s2 by linarith
qed

lemma read_le32_le32:
  assumes "n < 2 ^ 32"
  shows "read_le32 (le32 n @ bs) = n"
proof -
  have "n div 16777216 < 256" using assms by (simp add: less_mult_imp_div_less)
  then have "n div 16777216 mod 256 = n div 16777216" by simp
  with le32_digits [OF assms] show ?thesis
    by (simp add: read_le32_def le32_def unat_of_nat)
qed

lemma build_conn_str_az_run: "build_conn_str (w\<lparr>az_run := other\<rparr>) = build_conn_str w"
  by (simp add: build_conn_str_def environ_item_def environ_get_def split: option.splits)

text \<open>
  C9. In \<^verbatim>\<open>az_cli\<close> mode, for a token (the stripped output of the command) that is not
  empty and whose encoding fits the 4-byte length field: the token is encoded with two bytes
  for each character, low byte first; the structure is the length of these bytes as four
  bytes, least significant first, followed by the bytes; the one \<^verbatim>\<open>connect\<close> gets the
  structure under the attribute key 1256 and, as connection string, the base string, which
  is the same whatever the command returns.
\<close>

theorem token_passed_as_attribute:
  assumes "lower (environ_get w ''AZURE_SQL_AUTH'' ''sql'') = ''az_cli''"
    and "build_conn_str w = Inr base" and "az_run w = Inr (0, out)"
    and "strip out = token" and "token \<noteq> []" and "2 * length token < 2 ^ 32"
  shows "\<exists>token_bytes blob.
      encode_utf16le token = Inr token_bytes
    \<and> token_bytes = concat (map (\<lambda>c. [of_nat (of_char c), 0]) token)
    \<and> blob = le32 (length token_bytes) @ token_bytes
    \<and> read_le32 blob = 2 * length token
    \<and> drop 4 blob = token_bytes
    \<and> connects (snd (get_connection w body)) = [(base, Some [(1256, blob)])]
    \<and> build_conn_str (w\<lparr>az_run := other\<rparr>) = Inr base"
proof -
  let ?tb = "concat (map (\<lambda>c. [of_nat (of_char c), 0 :: byte]) token)"
  let ?blob = "le32 (length ?tb) @ ?tb"
  have e: "encode_utf16le token = Inr ?tb" by (rule encode_utf16le_chars)
  have l: "length ?tb = 2 * length token" by (rule length_utf16_chars)
  have p: "pack_token ?tb = Inr ?blob"
    using assms(6) by (simp add: pack_token_def l)
  have t: "get_az_token w = Inr token"
    using assms(3,4) by (simp add: get_az_token_def)
  have "open_connection w ''az_cli'' base =
          (driver_connect w base (Some [(1256, ?blob)]),
           [RunAz, Connect base (Some [(1256, ?blob)]) (driver_connect w base (Some [(1256, ?blob)]))])"
    using t e p by (rule open_connection_az)
  with assms(1) have o: "open_connection w (lower (environ_get w ''AZURE_SQL_AUTH'' ''sql'')) base =
          (driver_connect w base (Some [(1256, ?blob)]),
           [RunAz, Connect base (Some [(1256, ?blob)]) (driver_connect w base (Some [(1256, ?blob)]))])"
    by simp
  have c: "connects (snd (get_connection w body)) = [(base, Some [(1256, ?blob)])]"
    using connects_get_connection [OF assms(2) o, of body] by simp
  have r: "read_le32 ?blob = 2 * length token"
    using assms(6) by (simp add: read_le32_le32 l)
  have d: "drop 4 ?blob = ?tb" by (simp add: le32_def)
  have b: "build_conn_str (w\<lparr>az_run := other\<rparr>) = Inr base"
    using assms(2) by (simp add: build_conn_str_az_run)
  from e r d c b show ?thesis by blast
qed

theorem token_passed_as_attribute_witness:
  "connects (snd (get_connection (az_world 0 (''tok'' @ [CHR 0x0A])) idle_work)) =
     [(''DRIVER={ODBC Driver 18 for SQL Server};SERVER=srv;DATABASE=db;Encrypt=yes;TrustServerCertificate=no;'',
       Some [(1256, [6, 0, 0, 0, 116, 0, 111, 0, 107, 0])])]"
proof -
  have s: "strip (''tok'' @ [CHR 0x0A]) = ''tok''" by (simp add: strip_def isspace_def)
  have n: "''tok'' \<noteq> []" by simp
  have b: "2 * length ''tok'' < (2::nat) ^ 32" by simp
  from token_passed_as_attribute [OF az_world_auth az_world_conn_str az_world_run s n b,
      of idle_work]
  show ?thesis by (auto simp: le32_def)
qed

section \<open>The row cap of \<^verbatim>\<open>sample_table\<close>\<close>

lemma tool_body_sample_table:
  assumes "arg_schema arguments = Some schema" and "arg_table arguments = Some table"
  shows "tool_body w ''sample_table'' arguments conn =
           execute_and_render w conn (sample_sql (sample_rows arguments) schema table) []"
  using assms by (simp add: tool_body_def required_def)

lemma static_call_sample_table:
  assumes "arg_schema arguments = Some schema" and "arg_table arguments = Some table"
  shows "snd (call_tool static_world ''sample_table'' arguments) =
     [Connect ''DRIVER={ODBC Driver 18 for SQL Server};SERVER=srv;DATABASE=db;Encrypt=yes;TrustServerCertificate=no;UID=u;PWD=p;''
        None (Inr 7),
      Execute 7 (sample_sql (sample_rows arguments) schema table) [],
      Close 7]"
proof -
  have u: "environ static_world ''AZURE_SQL_USER'' = Some ''u''"
    by (simp add: static_world_def static_environ_def)
  have p: "environ static_world ''AZURE_SQL_PASSWORD'' = Some ''p''"
    by (simp add: static_world_def static_environ_def)
  have d: "driver_connect static_world cs a = Inr 7" for cs a
    by (simp add: static_world_def)
  note o = open_connection_static [OF static_world_auth u p]
  show ?thesis
    unfolding call_tool_def get_connection_trace [OF static_build_conn_str o]
    by (simp add: d tool_body_sample_table [OF assms] snd_execute_and_render)
qed

text \<open>
  C4, as the code has it: the number put after \<^verbatim>\<open>TOP\<close> is the requested one (50 when
  none is given) cut at 500. It is never above 500, a request of 1000 gives 500, and it is at
  least 0 whenever the request is; a request of at most 500, negative ones included, is
  passed as it is.
\<close>

theorem sample_table_rows_capped:
  assumes "arg_schema arguments = Some schema" and "arg_table arguments = Some table"
    and "opened (snd (call_tool w ''sample_table'' arguments)) \<noteq> []"
  shows "executed (snd (call_tool w ''sample_table'' arguments)) =
           [(''SELECT TOP '' @ str_int (sample_rows arguments) @ '' * FROM ['' @ schema @ ''].[''
               @ table @ '']'', [])]
       \<and> sample_rows arguments \<le> 500
       \<and> (arg_rows arguments = None \<longrightarrow> sample_rows arguments = 50)
       \<and> (arg_rows arguments = Some 1000 \<longrightarrow> sample_rows arguments = 500)
       \<and> (\<forall>r. arg_rows arguments = Some r \<and> 500 < r \<longrightarrow> sample_rows arguments = 500)
       \<and> (\<forall>r. arg_rows arguments = Some r \<and> r \<le> 500 \<longrightarrow> sample_rows arguments = r)
       \<and> (\<forall>r. arg_rows arguments = Some r \<and> 0 \<le> r \<longrightarrow> 0 \<le> sample_rows arguments)"
proof -
  let ?sql = "sample_sql (sample_rows arguments) schema table"
  let ?body = "\<lambda>conn. execute_and_render w conn ?sql []"
  have "tool_body w ''sample_table'' arguments = ?body"
    using assms(1,2) by (intro ext) (rule tool_body_sample_table)
  then have ct: "call_tool w ''sample_table'' arguments = get_connection w ?body"
    by (simp add: call_tool_def)
  have ex: "executed (snd (call_tool w ''sample_table'' arguments)) = [(?sql, [])]"
  proof (cases rule: get_connection_cases [of w ?body])
    case (unopened e tr)
    with assms(3) show ?thesis by (simp add: ct)
  next
    case (opened c pre)
    then show ?thesis
      by (simp add: ct executed_append executed_Execute snd_execute_and_render)
  qed
  then have "executed (snd (call_tool w ''sample_table'' arguments)) =
           [(''SELECT TOP '' @ str_int (sample_rows arguments) @ '' * FROM ['' @ schema @ ''].[''
               @ table @ '']'', [])]"
    by (simp add: sample_sql_def)
  moreover have "sample_rows arguments \<le> 500" by (simp add: sample_rows_def)
  moreover have "arg_rows arguments = None \<longrightarrow> sample_rows arguments = 50"
    by (simp add: sample_rows_def)
  moreover have "arg_rows arguments = Some 1000 \<longrightarrow> sample_rows arguments = 500"
    by (simp add: sample_rows_def)
  moreover have "\<forall>r. arg_rows arguments = Some r \<and> 500 < r \<longrightarrow> sample_rows arguments = 500"
    by (simp add: sample_rows_def)
  moreover have "\<forall>r. arg_rows arguments = Some r \<and> r \<le> 500 \<longrightarrow> sample_rows arguments = r"
    by (simp add: sample_rows_def)
  moreover have "\<forall>r. arg_rows arguments = Some r \<and> 0 \<le> r \<longrightarrow> 0 \<le> sample_rows arguments"
    by (simp add: sample_rows_def)
  ultimately show ?thesis by blast
qed

theorem sample_table_rows_capped_witness:
  "executed (snd (call_tool static_world ''sample_table'' large_request)) =
     [(''SELECT TOP 500 * FROM [dbo].[T]'', [])]
   \<and> sample_rows large_request = 500"
proof -
  have s: "arg_schema large_request = Some ''dbo''" by (simp add: large_request_def)
  have t: "arg_table large_request = Some ''T''" by (simp add: large_request_def)
  have r: "arg_rows large_request = Some 1000" by (simp add: large_request_def)
  have o: "opened (snd (call_tool static_world ''sample_table'' large_request)) \<noteq> []"
    by (simp add: static_call_sample_table [OF s t])
  have n: "str_int 500 = ''500''" by (simp add: str_int_def str_nat.simps digit_char_def)
  from sample_table_rows_capped [OF s t o] r n show ?thesis by simp
qed

text \<open>
  The lower bound of the claim fails for a request of - 5 rows: the statement executed asks
  for \<^verbatim>\<open>TOP -5\<close>.
\<close>

theorem negative_rows_not_clamped:
  "arg_rows negative_request = Some (- 5)
   \<and> sample_rows negative_request = - 5
   \<and> \<not> 0 \<le> sample_rows negative_request
   \<and> executed (snd (call_tool static_world ''sample_table'' negative_request)) =
       [(''SELECT TOP -5 * FROM [dbo].[T]'', [])]"
proof -
  have s: "arg_schema negative_request = Some ''dbo''" by (simp add: negative_request_def)
  have t: "arg_table negative_request = Some ''T''" by (simp add: negative_request_def)
  have r: "sample_rows negative_request = - 5" by (simp add: sample_rows_def negative_request_def)
  have n: "str_int (- 5) = ''-5''" by (simp add: str_int_def str_nat.simps digit_char_def)
  show ?thesis
    by (simp add: static_call_sample_table [OF s t] r sample_sql_def n)
       (simp add: negative_request_def)
qed

section \<open>Parsing a resource URI\<close>

lemma split1_length: "length (split1 sep s) = 2 \<longleftrightarrow> sep \<in> set s"
  by (simp add: split1_def)

lemma split1_parts:
  assumes "sep \<in> set s"
  shows "split1 sep s = [a, b] \<longleftrightarrow> s = a @ sep # b \<and> sep \<notin> set a"
proof
  assume "split1 sep s = [a, b]"
  with assms have a: "a = takeWhile (\<lambda>c. c \<noteq> sep) s"
    and b: "b = tl (dropWhile (\<lambda>c. c \<noteq> sep) s)"
    by (simp_all add: split1_def)
  from assms have "dropWhile (\<lambda>c. c \<noteq> sep) s \<noteq> []" by simp
  moreover from this have "hd (dropWhile (\<lambda>c. c \<noteq> sep) s) = sep"
    using hd_dropWhile [of "\<lambda>c. c \<noteq> sep" s] by simp
  ultimately have "dropWhile (\<lambda>c. c \<noteq> sep) s = sep # b"
    unfolding b by (cases "dropWhile (\<lambda>c. c \<noteq> sep) s") simp_all
  then have "s = a @ sep # b"
    unfolding a using takeWhile_dropWhile_id [of "\<lambda>c. c \<noteq> sep" s] by simp
  moreover have "sep \<notin> set a"
    unfolding a using set_takeWhileD by fastforce
  ultimately show "s = a @ sep # b \<and> sep \<notin> set a" ..
next
  assume "s = a @ sep # b \<and> sep \<notin> set a"
  then have s: "s = a @ sep # b" and n: "sep \<notin> set a" by simp_all
  have "takeWhile (\<lambda>c. c \<noteq> sep) s = a"
    unfolding s using n by (subst takeWhile_append2) auto
  moreover have "dropWhile (\<lambda>c. c \<noteq> sep) s = sep # b"
    unfolding s using n by (subst dropWhile_append2) auto
  ultimately show "split1 sep s = [a, b]"
    using assms by (simp add: split1_def)
qed

lemma replace_Nil: "old \<noteq> [] \<Longrightarrow> replace old new [] = []"
  by (subst replace.simps) (simp)

lemma replace_no_match:
  "old \<noteq> [] \<Longrightarrow> take (length old) (x # xs) \<noteq> old \<Longrightarrow>
   replace old new (x # xs) = x # replace old new xs"
  by (subst replace.simps) (simp)

lemma replace_match:
  "old \<noteq> [] \<Longrightarrow> replace old new (old @ s) = new @ replace old new s"
  by (subst replace.simps) (simp)

lemma replace_absent:
  assumes "old \<noteq> []" and "c \<in> set old" and "c \<notin> set s"
  shows "replace old new s = s"
  using assms(3)
proof (induction s)
  case Nil
  from assms(1) show ?case by (rule replace_Nil)
next
  case (Cons x xs)
  have "take (length old) (x # xs) \<noteq> old"
  proof
    assume e: "take (length old) (x # xs) = old"
    from assms(2) have "c \<in> set (take (length old) (x # xs))" by (simp only: e)
    then have "c \<in> set (x # xs)" by (rule in_set_takeD)
    with Cons.prems show False by simp
  qed
  with assms(1) have "replace old new (x # xs) = x # replace old new xs"
    by (rule replace_no_match)
  moreover from Cons have "replace old new xs = xs" by simp
  ultimately show ?case by (simp)
qed

lemma replace_scheme_absent:
  "CHR '':'' \<notin> set s \<Longrightarrow> replace ''mssql://'' [] s = s"
  by (rule replace_absent [where c = "CHR '':''"]) simp_all

lemma replace_scheme_prefix:
  "replace ''mssql://'' [] (''mssql://'' @ s) = replace ''mssql://'' [] s"
  using replace_match [of "''mssql://''" "[]" s] by (simp)

text \<open>
  C5, as the code has it: every occurrence of \<^verbatim>\<open>mssql://\<close> is removed from the URI and
  the rest is split at its first dot. The parse yields schema and table exactly when the rest
  is the schema, a dot and the table, with no dot in the schema; it fails with the
  \<^verbatim>\<open>ValueError\<close> exactly when the rest has no dot. Neither part is tested for emptiness.
  After the scheme, a rest without a colon is left as it is; \<^verbatim>\<open>mssql://dbo.Customers\<close>
  gives \<^verbatim>\<open>dbo\<close> and \<^verbatim>\<open>Customers\<close>, and \<^verbatim>\<open>mssql://bad\<close> fails.
\<close>

theorem parse_resource_uri_split:
  "(parse_resource_uri uri = Inr (schema, table) \<longleftrightarrow>
      replace ''mssql://'' [] uri = schema @ ''.'' @ table \<and> CHR ''.'' \<notin> set schema)
 \<and> (parse_resource_uri uri = Inl (ValueError (''Invalid resource URI: '' @ uri)) \<longleftrightarrow>
      CHR ''.'' \<notin> set (replace ''mssql://'' [] uri))
 \<and> (CHR '':'' \<notin> set rest \<longrightarrow> replace ''mssql://'' [] (''mssql://'' @ rest) = rest)
 \<and> parse_resource_uri ''mssql://dbo.Customers'' = Inr (''dbo'', ''Customers'')
 \<and> parse_resource_uri ''mssql://bad'' = Inl (ValueError ''Invalid resource URI: mssql://bad'')"
proof -
  let ?path = "replace ''mssql://'' [] uri"
  have a: "parse_resource_uri uri = Inr (schema, table) \<longleftrightarrow>
      ?path = schema @ ''.'' @ table \<and> CHR ''.'' \<notin> set schema"
  proof (cases "CHR ''.'' \<in> set ?path")
    case True
    define x where "x = takeWhile (\<lambda>c. c \<noteq> CHR ''.'') ?path"
    define y where "y = tl (dropWhile (\<lambda>c. c \<noteq> CHR ''.'') ?path)"
    have xy: "split1 CHR ''.'' ?path = [x, y]"
      using True by (simp add: split1_def x_def y_def)
    have "parse_resource_uri uri = Inr (x, y)"
      by (simp add: parse_resource_uri_def Let_def xy)
    then have "parse_resource_uri uri = Inr (schema, table) \<longleftrightarrow>
        split1 CHR ''.'' ?path = [schema, table]"
      by (auto simp: xy)
    also have "\<dots> \<longleftrightarrow> ?path = schema @ CHR ''.'' # table \<and> CHR ''.'' \<notin> set schema"
      using True by (rule split1_parts)
    finally show ?thesis by simp
  next
    case False
    then have "parse_resource_uri uri = Inl (ValueError (''Invalid resource URI: '' @ uri))"
      by (simp add: parse_resource_uri_def Let_def split1_def)
    moreover from False have "?path \<noteq> schema @ ''.'' @ table" by auto
    ultimately show ?thesis by simp
  qed
  have b: "parse_resource_uri uri = Inl (ValueError (''Invalid resource URI: '' @ uri)) \<longleftrightarrow>
      CHR ''.'' \<notin> set ?path"
    by (simp add: parse_resource_uri_def Let_def split1_length)
  have c: "CHR '':'' \<notin> set rest \<longrightarrow> replace ''mssql://'' [] (''mssql://'' @ rest) = rest"
    by (simp only: replace_scheme_prefix) (simp add: replace_scheme_absent)
  have p1: "replace ''mssql://'' [] ''mssql://dbo.Customers'' = ''dbo.Customers''"
    using replace_scheme_prefix [of "''dbo.Customers''"] replace_scheme_absent [of "''dbo.Customers''"]
    by (simp)
  have p2: "replace ''mssql://'' [] ''mssql://bad'' = ''bad''"
    using replace_scheme_prefix [of "''bad''"] replace_scheme_absent [of "''bad''"]
    by (simp)
  have d: "parse_resource_uri ''mssql://dbo.Customers'' = Inr (''dbo'', ''Customers'')"
    by (simp add: parse_resource_uri_def Let_def p1 split1_def)
  have e: "parse_resource_uri ''mssql://bad'' = Inl (ValueError ''Invalid resource URI: mssql://bad'')"
    by (simp add: parse_resource_uri_def Let_def p2 split1_def)
  show ?thesis by (intro conjI) (rule a b c d e)+
qed

theorem parse_resource_uri_split_witness:
  "CHR '':'' \<notin> set ''dbo.Customers''
   \<and> replace ''mssql://'' [] ''mssql://dbo.Customers'' = ''dbo.Customers''
   \<and> parse_resource_uri ''mssql://dbo.Customers'' = Inr (''dbo'', ''Customers'')"
proof -
  have n: "CHR '':'' \<notin> set ''dbo.Customers''" by simp
  from parse_resource_uri_split [of "''mssql://dbo.Customers''" "''dbo''" "''Customers''" "''dbo.Customers''"] n
  show ?thesis by (simp)
qed

text \<open>
  The claim that a rest which does not split into two non-empty parts is refused fails for
  \<^verbatim>\<open>mssql://dbo.\<close>: the table is the empty string and the parse succeeds.
\<close>

theorem empty_table_part_accepted:
  "replace ''mssql://'' [] ''mssql://dbo.'' = ''dbo.''
   \<and> split1 CHR ''.'' ''dbo.'' = [''dbo'', []]
   \<and> parse_resource_uri ''mssql://dbo.'' = Inr (''dbo'', [])"
proof -
  have p: "replace ''mssql://'' [] ''mssql://dbo.'' = ''dbo.''"
    using replace_scheme_prefix [of "''dbo.''"] replace_scheme_absent [of "''dbo.''"]
    by (simp)
  then show ?thesis by (simp add: parse_resource_uri_def Let_def split1_def)
qed

end
